theory Spec2Isabelle
  imports Complex_Main
begin

section \<open>Random walks with Stable Diffusion: the walk, batching and gif-export code\<close>

text \<open>
  The guide \<^verbatim>\<open>guides/keras_cv/random_walks_with_stable_diffusion.py\<close> is a script:
  one function, \<^verbatim>\<open>export_as_gif\<close>, and three top-level loops that build latent
  walks in batches and hand them to the diffusion model. The model, PIL and TensorFlow
  are libraries; their entry points appear here as parameters of the definitions
  (\<open>generate_image\<close>, \<open>fromarray\<close>, the generator behind \<^verbatim>\<open>tf.random.normal\<close>) or,
  for \<^verbatim>\<open>tf.linspace\<close> and the list operations of Python, as the documented
  function. The script's literals (160 steps, batches of 16, seed 12345, shape
  (77, 768)) are arguments of the definitions. Tensors are lists of reals (the
  entries in row-major order); rounding of the floating-point types is not modelled.
\<close>

subsection \<open>Python lists and errors\<close>

datatype py_error = IndexError | ZeroDivisionError

text \<open>
  A slice bound of Python: a negative bound counts from the end, and every bound is
  clamped to the list.
\<close>

definition slice_bound :: "int \<Rightarrow> nat \<Rightarrow> nat" where
  "slice_bound i n = (if i < 0 then nat (max (i + int n) 0) else min (nat i) n)"

text \<open>\<^verbatim>\<open>xs[start:stop]\<close>; \<open>None\<close> for an omitted stop.\<close>

definition py_slice :: "'a list \<Rightarrow> int \<Rightarrow> int option \<Rightarrow> 'a list" where
  "py_slice xs start stop =
     (let n = length xs;
          lo = slice_bound start n;
          hi = (case stop of None \<Rightarrow> n | Some j \<Rightarrow> slice_bound j n)
      in drop lo (take hi xs))"

subsection \<open>\<^verbatim>\<open>export_as_gif\<close>\<close>

text \<open>
  The call \<^verbatim>\<open>Image.save(filename, save_all=True, append_images=..., duration=..., loop=0)\<close>
  as the exporter makes it: the file name, the frames (the image the method is called
  on, then the appended ones), the \<open>duration\<close> argument (the time per frame the
  exporter asks for, in milliseconds) and the loop count. How the image library encodes
  the duration in the file is the library's matter (a GIF holds delays in hundredths
  of a second) and is not part of the record.
\<close>

record 'f gif =
  filename :: string
  frames :: "'f list"
  duration :: int
  loop :: nat

text \<open>
  \<^verbatim>\<open>
  def export_as_gif(filename, images, frames_per_second=10, rubber_band=False):
      if rubber_band:
          images += images[2:-1][::-1]
      images[0].save(filename, save_all=True, append_images=images[1:],
                     duration=1000 // frames_per_second, loop=0)
  \<close>
  \<^verbatim>\<open>images += ...\<close> extends the caller's list object, so the function returns that
  list as it is after the call, next to the written file or the exception.
  \<^verbatim>\<open>images[0]\<close> is evaluated before the arguments of \<^verbatim>\<open>save\<close>, so an empty list
  raises IndexError before the division is tried.
\<close>

definition export_as_gif ::
  "string \<Rightarrow> 'f list \<Rightarrow> int \<Rightarrow> bool \<Rightarrow> 'f list \<times> (py_error + 'f gif)" where
  "export_as_gif file images frames_per_second rubber_band =
     (let images = (if rubber_band then images @ rev (py_slice images 2 (Some (- 1)))
                    else images)
      in (images,
          case images of
            [] \<Rightarrow> Inl IndexError
          | first # _ \<Rightarrow>
              if frames_per_second = 0 then Inl ZeroDivisionError
              else Inr \<lparr>filename = file, frames = first # py_slice images 1 None,
                        duration = 1000 div frames_per_second, loop = 0\<rparr>))"

subsection \<open>Tensors and the TensorFlow operations the script calls\<close>

type_synonym tensor = "real list"

definition tensor_add :: "tensor \<Rightarrow> tensor \<Rightarrow> tensor" where
  "tensor_add a b = map2 (+) a b"

definition tensor_sub :: "tensor \<Rightarrow> tensor \<Rightarrow> tensor" where
  "tensor_sub a b = map2 (-) a b"

definition tensor_div :: "tensor \<Rightarrow> real \<Rightarrow> tensor" where
  "tensor_div a c = map (\<lambda>x. x / c) a"

text \<open>
  \<^verbatim>\<open>tf.tensordot(v, t, axes=0)\<close> for a vector \<open>v\<close>: the outer product, one copy of
  \<open>t\<close> per entry of \<open>v\<close>, scaled by that entry.
\<close>

definition tensordot0 :: "real list \<Rightarrow> tensor \<Rightarrow> tensor list" where
  "tensordot0 v t = map (\<lambda>c. map (\<lambda>x. c * x) t) v"

text \<open>\<^verbatim>\<open>t + batch\<close>, the tensor broadcast along the batch axis.\<close>

definition broadcast_add :: "tensor \<Rightarrow> tensor list \<Rightarrow> tensor list" where
  "broadcast_add t batch = map (tensor_add t) batch"

text \<open>
  \<^verbatim>\<open>tf.linspace(start, stop, num)\<close>: \<open>num\<close> values from \<open>start\<close>; for \<open>num > 1\<close> they
  increase by \<open>(stop - start) / (num - 1)\<close>, so that the last one is \<open>stop\<close>. The script
  calls it with a positive \<open>num\<close> only.
\<close>

definition linspace :: "real \<Rightarrow> real \<Rightarrow> nat \<Rightarrow> real list" where
  "linspace start stop num =
     (if num = 1 then [start]
      else map (\<lambda>i. start + real i * ((stop - start) / real (num - 1))) [0..<num])"

text \<open>The same along a new leading axis, for tensors of one shape.\<close>

definition tensor_linspace :: "tensor \<Rightarrow> tensor \<Rightarrow> nat \<Rightarrow> tensor list" where
  "tensor_linspace start stop num =
     (if num = 1 then [start]
      else map (\<lambda>i. tensor_add start
                  (map (\<lambda>d. real i * (d / real (num - 1))) (tensor_sub stop start)))
             [0..<num])"

subsection \<open>Interpolating between text prompts\<close>

text \<open>
  \<^verbatim>\<open>interpolated_encodings = tf.linspace(encoding_1, encoding_2, interpolation_steps)\<close>
\<close>

definition interpolated_encodings :: "tensor \<Rightarrow> tensor \<Rightarrow> nat \<Rightarrow> tensor list" where
  "interpolated_encodings encoding_1 encoding_2 interpolation_steps =
     tensor_linspace encoding_1 encoding_2 interpolation_steps"

text \<open>
  The fine-grained interpolation, batched by hand:
  \<^verbatim>\<open>
  encoding_step = (encoding_2 - encoding_1) / interpolation_steps
  images = []
  for step_index in range(interpolation_steps // batch_size):
      step_offsets = tf.linspace(batch_size*step_index,
                                 batch_size*(step_index+1) - 1, batch_size)
      step_offsets = tf.tensordot(tf.cast(step_offsets, ...), encoding_step, 0)
      encodings = encoding_1 + tf.cast(step_offsets, encoding_1.dtype)
      images += [Image.fromarray(img) for img in model.generate_image(
          encodings, batch_size=batch_size, num_steps=25, diffusion_noise=noise)]
  \<close>
  \<open>generate_image\<close> takes the batch of encodings, the batch size and the diffusion
  noise. The loop variable runs over the list of indices; \<open>images\<close> is the accumulator.
\<close>

fun interpolation_loop ::
  "(tensor list \<Rightarrow> nat \<Rightarrow> tensor \<Rightarrow> 'arr list) \<Rightarrow> ('arr \<Rightarrow> 'img) \<Rightarrow>
   tensor \<Rightarrow> tensor \<Rightarrow> nat \<Rightarrow> tensor \<Rightarrow> nat list \<Rightarrow> 'img list \<Rightarrow> 'img list" where
  "interpolation_loop generate_image fromarray encoding_1 encoding_step batch_size noise
     [] images = images"
| "interpolation_loop generate_image fromarray encoding_1 encoding_step batch_size noise
     (step_index # rest) images =
     (let step_offsets = linspace (real (batch_size * step_index))
                           (real (batch_size * (step_index + 1) - 1)) batch_size;
          step_offsets = tensordot0 step_offsets encoding_step;
          encodings = broadcast_add encoding_1 step_offsets
      in interpolation_loop generate_image fromarray encoding_1 encoding_step batch_size noise
           rest (images @ map fromarray (generate_image encodings batch_size noise)))"

definition fine_interpolation ::
  "(tensor list \<Rightarrow> nat \<Rightarrow> tensor \<Rightarrow> 'arr list) \<Rightarrow> ('arr \<Rightarrow> 'img) \<Rightarrow>
   tensor \<Rightarrow> tensor \<Rightarrow> nat \<Rightarrow> nat \<Rightarrow> tensor \<Rightarrow> py_error + 'img list" where
  "fine_interpolation generate_image fromarray encoding_1 encoding_2 interpolation_steps
     batch_size noise =
     (let encoding_step = tensor_div (tensor_sub encoding_2 encoding_1)
                            (real interpolation_steps)
      in if batch_size = 0 then Inl ZeroDivisionError
         else Inr (interpolation_loop generate_image fromarray encoding_1 encoding_step
                     batch_size noise [0..<interpolation_steps div batch_size] []))"

subsection \<open>Random numbers\<close>

text \<open>
  \<^verbatim>\<open>tf.random.normal(shape, stddev=..., seed=..., dtype=...)\<close> in eager mode, with no
  global seed set (the script sets none). TensorFlow keeps one kernel per combination
  of the operation's attributes, here the operation seed (or none) and the dtype; the
  kernel holds a generator whose state advances with every execution, by an amount
  that depends on the number of values drawn. The state of a generator is left
  abstract (the type \<open>'k\<close>), and the function \<open>draw\<close>, which maps a state and a number
  of entries to that many standard-normal values and the next state, is a parameter.
  The values are then scaled by \<open>stddev\<close>; the mean is 0.
\<close>

datatype dtype = Float32 | Float64

record 'k tf_random =
  kernels :: "int option \<times> dtype \<Rightarrow> 'k"

definition tf_random_normal ::
  "('k \<Rightarrow> nat \<Rightarrow> tensor \<times> 'k) \<Rightarrow> nat \<Rightarrow> real \<Rightarrow> int option \<Rightarrow> dtype \<Rightarrow> 'k tf_random
     \<Rightarrow> tensor \<times> 'k tf_random" where
  "tf_random_normal draw shape stddev seed dt g =
     (let (values, k) = draw (kernels g (seed, dt)) shape
      in (map (\<lambda>x. x * stddev) values, g\<lparr>kernels := (kernels g)((seed, dt) := k)\<rparr>))"

text \<open>
  The random state at the start of a run of the program. A kernel with an operation
  seed starts in a state fixed by the seed and the dtype (\<open>seeded\<close>, the same in every
  run). A kernel with no seed is seeded at random: its first state is the run's
  entropy, an input of the run that differs from run to run.
\<close>

definition initial_random :: "(int \<Rightarrow> dtype \<Rightarrow> 'k) \<Rightarrow> (dtype \<Rightarrow> 'k) \<Rightarrow> 'k tf_random" where
  "initial_random seeded entropy =
     \<lparr>kernels = (\<lambda>key. case fst key of
                           Some s \<Rightarrow> seeded s (snd key)
                         | None \<Rightarrow> entropy (snd key))\<rparr>"

subsection \<open>A random walk around a text prompt\<close>

text \<open>
  The walk appends the object named \<^verbatim>\<open>encoding\<close> to a list and then runs
  \<^verbatim>\<open>encoding += random_deltas\<close>, so whether the appended elements are values of
  their own depends on what \<^verbatim>\<open>+=\<close> does to the object. The objects live in a store
  (a list, an address is an index), and the list \<^verbatim>\<open>batch_encodings\<close> holds addresses.
  \<^verbatim>\<open>model.encode_text\<close> may return a NumPy array or a TensorFlow tensor; the right
  operand \<^verbatim>\<open>random_deltas\<close> is always a TensorFlow tensor.
\<close>

datatype array = NdArray tensor | EagerTensor tensor

fun entries :: "array \<Rightarrow> tensor" where
  "entries (NdArray v) = v"
| "entries (EagerTensor v) = v"

type_synonym ref = nat

text \<open>
  \<^verbatim>\<open>encoding += random_deltas\<close>: the new store and the object \<^verbatim>\<open>encoding\<close> names
  afterwards. A TensorFlow tensor is immutable and has no in-place addition, and a
  NumPy array defers to the tensor on its right (the tensor has the higher array
  priority), so in both cases the sum is computed by the tensor's addition: it is a
  new tensor, the name is rebound to it, and the object that was appended is left as
  it was.
\<close>

definition iadd :: "array list \<Rightarrow> ref \<Rightarrow> tensor \<Rightarrow> array list \<times> ref" where
  "iadd h r delta = (h @ [EagerTensor (tensor_add (entries (h ! r)) delta)], length h)"

text \<open>\<^verbatim>\<open>tf.stack(batch_encodings)\<close> reads the objects as they are when it is called.\<close>

definition tf_stack :: "array list \<Rightarrow> ref list \<Rightarrow> tensor list" where
  "tf_stack h refs = map (\<lambda>r. entries (h ! r)) refs"

text \<open>
  \<^verbatim>\<open>
  for individual_image_step in range(batch_size):
      batch_encodings.append(encoding)
      random_deltas = tf.random.normal((77, 768), stddev=step_size, seed=seed)
      encoding += random_deltas
  \<close>
  The state is the store, the object \<^verbatim>\<open>encoding\<close> names, the random state and
  \<^verbatim>\<open>batch_encodings\<close>.
\<close>

fun batch_loop ::
  "('k \<Rightarrow> nat \<Rightarrow> tensor \<times> 'k) \<Rightarrow> nat \<Rightarrow> real \<Rightarrow> int \<Rightarrow> nat \<Rightarrow>
   array list \<times> ref \<times> 'k tf_random \<times> ref list \<Rightarrow>
   array list \<times> ref \<times> 'k tf_random \<times> ref list" where
  "batch_loop draw shape step_size seed 0 st = st"
| "batch_loop draw shape step_size seed (Suc n) (h, encoding, g, batch_encodings) =
     (let batch_encodings = batch_encodings @ [encoding];
          (random_deltas, g) = tf_random_normal draw shape step_size (Some seed) Float32 g;
          (h, encoding) = iadd h encoding random_deltas
      in batch_loop draw shape step_size seed n (h, encoding, g, batch_encodings))"

text \<open>
  \<^verbatim>\<open>
  images = []
  for step_index in range(walk_steps // batch_size):
      batch_encodings = []
      ...
      batch_encodings = tf.stack(batch_encodings)
      images += [Image.fromarray(img) for img in model.generate_image(
          batch_encodings, batch_size=batch_size, num_steps=25, diffusion_noise=noise)]
  \<close>
\<close>

fun walk_loop ::
  "('k \<Rightarrow> nat \<Rightarrow> tensor \<times> 'k) \<Rightarrow> (tensor list \<Rightarrow> nat \<Rightarrow> tensor \<Rightarrow> 'arr list) \<Rightarrow>
   ('arr \<Rightarrow> 'img) \<Rightarrow> nat \<Rightarrow> nat \<Rightarrow> real \<Rightarrow> int \<Rightarrow> tensor \<Rightarrow> nat \<Rightarrow>
   array list \<times> ref \<times> 'k tf_random \<times> 'img list \<Rightarrow>
   array list \<times> ref \<times> 'k tf_random \<times> 'img list" where
  "walk_loop draw generate_image fromarray shape batch_size step_size seed noise 0 st = st"
| "walk_loop draw generate_image fromarray shape batch_size step_size seed noise (Suc n)
     (h, encoding, g, images) =
     (let (h, encoding, g, batch_encodings) =
            batch_loop draw shape step_size seed batch_size (h, encoding, g, []);
          batch_encodings = tf_stack h batch_encodings
      in walk_loop draw generate_image fromarray shape batch_size step_size seed noise n
           (h, encoding, g,
            images @ map fromarray (generate_image batch_encodings batch_size noise)))"

text \<open>
  The whole walk. \<open>start\<close> is the object \<^verbatim>\<open>model.encode_text(...)\<close> returned and \<open>g\<close>
  the random state when the loop is reached; the result is \<^verbatim>\<open>images\<close>.
\<close>

definition random_walk ::
  "('k \<Rightarrow> nat \<Rightarrow> tensor \<times> 'k) \<Rightarrow> (tensor list \<Rightarrow> nat \<Rightarrow> tensor \<Rightarrow> 'arr list) \<Rightarrow>
   ('arr \<Rightarrow> 'img) \<Rightarrow> array \<Rightarrow> nat \<Rightarrow> nat \<Rightarrow> nat \<Rightarrow> real \<Rightarrow> int \<Rightarrow> tensor \<Rightarrow>
   'k tf_random \<Rightarrow> py_error + 'img list" where
  "random_walk draw generate_image fromarray start shape walk_steps batch_size step_size
     seed noise g =
     (if batch_size = 0 then Inl ZeroDivisionError
      else Inr (snd (snd (snd
             (walk_loop draw generate_image fromarray shape batch_size step_size seed noise
                (walk_steps div batch_size) ([start], 0, g, []))))))"

text \<open>
  The walk within a run of the script. Before the loop the script has made one seeded
  draw, the diffusion noise that every batch of the walk is generated with,
  \<^verbatim>\<open>
  seed = 12345
  noise = tf.random.normal((512 // 8, 512 // 8, 4), seed=seed)
  \<close>
  and no other draw of its own (the diffusion model is handed its noise). \<open>g\<close> is the
  random state at the start of the run.
\<close>

definition script_random_walk ::
  "('k \<Rightarrow> nat \<Rightarrow> tensor \<times> 'k) \<Rightarrow> (tensor list \<Rightarrow> nat \<Rightarrow> tensor \<Rightarrow> 'arr list) \<Rightarrow>
   ('arr \<Rightarrow> 'img) \<Rightarrow> array \<Rightarrow> nat \<Rightarrow> nat \<Rightarrow> nat \<Rightarrow> nat \<Rightarrow> real \<Rightarrow> int \<Rightarrow>
   'k tf_random \<Rightarrow> py_error + 'img list" where
  "script_random_walk draw generate_image fromarray start noise_shape shape walk_steps
     batch_size step_size seed g =
     (let (noise, g) = tf_random_normal draw noise_shape 1 (Some seed) Float32 g
      in random_walk draw generate_image fromarray start shape walk_steps batch_size
           step_size seed noise g)"

subsection \<open>A circular walk through the diffusion noise space\<close>

text \<open>
  \<^verbatim>\<open>
  for step in range(walk_steps // batch_size):
      walk_scale_x = tf.cos(tf.linspace(batch_size*step, batch_size*(step+1) - 1,
                                        batch_size) * 2 * math.pi / walk_steps)
      walk_scale_y = tf.sin(tf.linspace(batch_size*step, batch_size*(step+1) - 1,
                                        batch_size) * 2 * math.pi / walk_steps)
      noise_x = tf.tensordot(walk_scale_x, walk_noise_x, axes=0)
      noise_y = tf.tensordot(walk_scale_y, walk_noise_y, axes=0)
      noise = tf.add(noise_x, noise_y)
      images += [Image.fromarray(img) for img in model.generate_image(
          encoding, batch_size=batch_size, num_steps=25, diffusion_noise=noise)]
  \<close>
  Here \<open>generate_image\<close> takes one encoding and a batch of noise tensors.
\<close>

fun circular_loop ::
  "(tensor \<Rightarrow> nat \<Rightarrow> tensor list \<Rightarrow> 'arr list) \<Rightarrow> ('arr \<Rightarrow> 'img) \<Rightarrow> tensor \<Rightarrow>
   nat \<Rightarrow> nat \<Rightarrow> tensor \<Rightarrow> tensor \<Rightarrow> nat list \<Rightarrow> 'img list \<Rightarrow> 'img list" where
  "circular_loop generate_image fromarray encoding walk_steps batch_size walk_noise_x
     walk_noise_y [] images = images"
| "circular_loop generate_image fromarray encoding walk_steps batch_size walk_noise_x
     walk_noise_y (step # rest) images =
     (let walk_scale_x = map (\<lambda>t. cos (t * 2 * pi / real walk_steps))
                           (linspace (real (batch_size * step))
                              (real (batch_size * (step + 1) - 1)) batch_size);
          walk_scale_y = map (\<lambda>t. sin (t * 2 * pi / real walk_steps))
                           (linspace (real (batch_size * step))
                              (real (batch_size * (step + 1) - 1)) batch_size);
          noise_x = tensordot0 walk_scale_x walk_noise_x;
          noise_y = tensordot0 walk_scale_y walk_noise_y;
          noise = map2 tensor_add noise_x noise_y
      in circular_loop generate_image fromarray encoding walk_steps batch_size walk_noise_x
           walk_noise_y rest
           (images @ map fromarray (generate_image encoding batch_size noise)))"

text \<open>
  The loop for given base tensors, and the whole walk with the two draws
  \<^verbatim>\<open>
  walk_noise_x = tf.random.normal(noise.shape, dtype=tf.float64)
  walk_noise_y = tf.random.normal(noise.shape, dtype=tf.float64)
  \<close>
  which pass no seed.
\<close>

definition circular_walk_from ::
  "(tensor \<Rightarrow> nat \<Rightarrow> tensor list \<Rightarrow> 'arr list) \<Rightarrow> ('arr \<Rightarrow> 'img) \<Rightarrow> tensor \<Rightarrow>
   nat \<Rightarrow> nat \<Rightarrow> tensor \<Rightarrow> tensor \<Rightarrow> py_error + 'img list" where
  "circular_walk_from generate_image fromarray encoding walk_steps batch_size walk_noise_x
     walk_noise_y =
     (if batch_size = 0 then Inl ZeroDivisionError
      else Inr (circular_loop generate_image fromarray encoding walk_steps batch_size
                  walk_noise_x walk_noise_y [0..<walk_steps div batch_size] []))"

definition circular_walk ::
  "('k \<Rightarrow> nat \<Rightarrow> tensor \<times> 'k) \<Rightarrow> (tensor \<Rightarrow> nat \<Rightarrow> tensor list \<Rightarrow> 'arr list) \<Rightarrow>
   ('arr \<Rightarrow> 'img) \<Rightarrow> tensor \<Rightarrow> nat \<Rightarrow> nat \<Rightarrow> nat \<Rightarrow> 'k tf_random \<Rightarrow>
   py_error + 'img list" where
  "circular_walk draw generate_image fromarray encoding shape walk_steps batch_size g =
     (let (walk_noise_x, g) = tf_random_normal draw shape 1 None Float64 g;
          (walk_noise_y, g) = tf_random_normal draw shape 1 None Float64 g
      in circular_walk_from generate_image fromarray encoding walk_steps batch_size
           walk_noise_x walk_noise_y)"

subsection \<open>The walks as the specification words them\<close>

text \<open>
  These definitions follow the specification, not the code; the loops above are
  compared with them. The random walk: the first vector is the start, and every next
  vector is the previous one plus the next delta.
\<close>

fun spec_random_walk :: "tensor \<Rightarrow> tensor list \<Rightarrow> tensor list" where
  "spec_random_walk start [] = []"
| "spec_random_walk start (delta # deltas) =
     start # spec_random_walk (tensor_add start delta) deltas"

text \<open>
  The deltas: \<open>n\<close> successive draws from one generator, each scaled by the step size,
  and the state of the generator after them.
\<close>

fun fresh_deltas ::
  "('k \<Rightarrow> nat \<Rightarrow> tensor \<times> 'k) \<Rightarrow> nat \<Rightarrow> real \<Rightarrow> 'k \<Rightarrow> nat \<Rightarrow> tensor list \<times> 'k" where
  "fresh_deltas draw shape step_size k 0 = ([], k)"
| "fresh_deltas draw shape step_size k (Suc n) =
     (let (values, k1) = draw k shape;
          (deltas, k2) = fresh_deltas draw shape step_size k1 n
      in (map (\<lambda>x. x * step_size) values # deltas, k2))"

text \<open>
  The circular walk: the vector at step \<open>i\<close> of a walk of \<open>steps\<close> steps is
  \<open>cos(2\<pi>i/steps)\<cdot>noiseX + sin(2\<pi>i/steps)\<cdot>noiseY\<close>.
\<close>

definition spec_circular_vector :: "nat \<Rightarrow> tensor \<Rightarrow> tensor \<Rightarrow> nat \<Rightarrow> tensor" where
  "spec_circular_vector steps noise_x noise_y i =
     tensor_add (map (\<lambda>x. cos (2 * pi * real i / real steps) * x) noise_x)
                (map (\<lambda>y. sin (2 * pi * real i / real steps) * y) noise_y)"

subsection \<open>Facts about slices\<close>

lemma slice_bound_last: "slice_bound (- 1) n = n - 1"
  by (simp add: slice_bound_def)

lemma slice_bound_nat: "slice_bound (int k) n = min k n"
  by (simp add: slice_bound_def)

lemma py_slice_interior: "py_slice xs 2 (Some (- 1)) = drop 2 (butlast xs)"
proof -
  have bound: "slice_bound 2 (length xs) = min 2 (length xs)"
    using slice_bound_nat [of 2 "length xs"] by simp
  have "drop (min 2 (length xs)) (butlast xs) = drop 2 (butlast xs)"
    by (cases "2 \<le> length xs") (simp_all add: min_def)
  then show ?thesis
    by (simp add: py_slice_def Let_def slice_bound_last bound butlast_conv_take)
qed

lemma py_slice_tail: "py_slice xs 1 None = tl xs"
  by (cases xs) (simp_all add: py_slice_def slice_bound_def)

lemma export_as_gif_frames:
  assumes "images \<noteq> []" and "frames_per_second \<noteq> 0"
  shows "export_as_gif file images frames_per_second rubber_band =
           (let out = (if rubber_band then images @ rev (drop 2 (butlast images)) else images)
            in (out, Inr \<lparr>filename = file, frames = out,
                          duration = 1000 div frames_per_second, loop = 0\<rparr>))"
proof -
  obtain x xs where images: "images = x # xs"
    using assms(1) by (cases images) auto
  show ?thesis
    using assms(2)
    by (simp add: export_as_gif_def Let_def py_slice_interior py_slice_tail images)
qed

subsection \<open>Facts about the batching loops\<close>

text \<open>
  The offsets of one batch are the whole numbers from \<open>batch_size * k\<close> to
  \<open>batch_size * k + batch_size - 1\<close>.
\<close>

lemma linspace_batch:
  assumes "0 < batch_size"
  shows "linspace (real (batch_size * k)) (real (batch_size * (k + 1) - 1)) batch_size =
           map real [batch_size * k..<batch_size * k + batch_size]"
proof (cases "batch_size = 1")
  case True
  then show ?thesis by (simp add: linspace_def)
next
  case False
  with assms have big: "1 < batch_size" by simp
  have diff: "real (batch_size * (k + 1) - 1) - real (batch_size * k) = real (batch_size - 1)"
    using big by (simp add: of_nat_diff algebra_simps)
  have step: "(real (batch_size * (k + 1) - 1) - real (batch_size * k)) / real (batch_size - 1) = 1"
    using big by (simp only: diff) simp
  have "linspace (real (batch_size * k)) (real (batch_size * (k + 1) - 1)) batch_size =
          map (\<lambda>i. real (batch_size * k) + real i * 1) [0..<batch_size]"
    using False by (simp only: linspace_def step if_False)
  also have "\<dots> = map real (map (\<lambda>i. i + batch_size * k) [0..<batch_size])"
    by (simp add: add.commute)
  also have "map (\<lambda>i. i + batch_size * k) [0..<batch_size] =
               [batch_size * k..<batch_size * k + batch_size]"
    using map_add_upt [of "batch_size * k" batch_size] by (simp add: add.commute)
  finally show ?thesis .
qed

lemma concat_chunks:
  "concat (map (\<lambda>k. map f [b * k..<b * k + b]) [0..<m]) = map f [0..<m * b]"
proof (induction m)
  case 0
  then show ?case by simp
next
  case (Suc m)
  have "[0..<Suc m * b] = [0..<m * b] @ [b * m..<b * m + b]"
    using upt_add_eq_append [of 0 "m * b" b] by (simp add: mult.commute add.commute)
  then show ?case
    using Suc by simp
qed

lemma interpolation_loop_closed:
  "interpolation_loop generate_image fromarray encoding_1 encoding_step batch_size noise ks images =
     images @ concat (map (\<lambda>k. map fromarray (generate_image
        (broadcast_add encoding_1 (tensordot0
           (linspace (real (batch_size * k)) (real (batch_size * (k + 1) - 1)) batch_size)
           encoding_step)) batch_size noise)) ks)"
  by (induction ks arbitrary: images) (simp_all add: Let_def)

lemma interpolation_chunk:
  assumes "0 < batch_size"
  shows "broadcast_add encoding_1 (tensordot0
           (linspace (real (batch_size * k)) (real (batch_size * (k + 1) - 1)) batch_size)
           encoding_step) =
         map (\<lambda>i. tensor_add encoding_1 (map (\<lambda>x. real i * x) encoding_step))
           [batch_size * k..<batch_size * k + batch_size]"
  by (simp only: linspace_batch [OF assms] broadcast_add_def tensordot0_def map_map comp_def)

lemma fine_interpolation_closed:
  assumes "0 < batch_size"
  shows "fine_interpolation generate_image fromarray encoding_1 encoding_2 interpolation_steps
           batch_size noise =
         Inr (concat (map (\<lambda>k. map fromarray (generate_image
                (map (\<lambda>i. tensor_add encoding_1
                        (map (\<lambda>x. real i * x)
                           (tensor_div (tensor_sub encoding_2 encoding_1)
                              (real interpolation_steps))))
                   [batch_size * k..<batch_size * k + batch_size]) batch_size noise))
              [0..<interpolation_steps div batch_size]))"
proof -
  have "batch_size \<noteq> 0"
    using assms by simp
  then show ?thesis
    by (simp only: fine_interpolation_def Let_def interpolation_loop_closed
        interpolation_chunk [OF assms] if_False append_Nil)
qed

lemma fine_interpolation_walk:
  assumes "0 < batch_size"
  shows "fine_interpolation (\<lambda>e b z. e) (\<lambda>v. v) encoding_1 encoding_2 interpolation_steps
           batch_size noise =
         Inr (map (\<lambda>i. tensor_add encoding_1
                        (map (\<lambda>x. real i * x)
                           (tensor_div (tensor_sub encoding_2 encoding_1)
                              (real interpolation_steps))))
                [0..<interpolation_steps div batch_size * batch_size])"
  by (simp only: fine_interpolation_closed [OF assms] list.map_ident concat_chunks)

lemma fine_interpolation_frames:
  assumes "0 < batch_size"
  shows "fine_interpolation (\<lambda>e b z. map (render z) e) fromarray encoding_1 encoding_2
           interpolation_steps batch_size noise =
         map_sum id (map (\<lambda>v. fromarray (render noise v)))
           (fine_interpolation (\<lambda>e b z. e) (\<lambda>v. v) encoding_1 encoding_2
              interpolation_steps batch_size noise)"
  by (simp add: fine_interpolation_closed [OF assms] map_concat comp_def)

lemma fine_interpolation_chunks:
  assumes "0 < batch_size"
  shows "map_sum id (map length)
           (fine_interpolation (\<lambda>e b z. [e]) (\<lambda>c. c) encoding_1 encoding_2
              interpolation_steps batch_size noise) =
         Inr (replicate (interpolation_steps div batch_size) batch_size)"
  by (simp add: fine_interpolation_closed [OF assms] comp_def map_replicate_const)

subsection \<open>Facts about \<^verbatim>\<open>tf.linspace\<close> on two encodings\<close>

lemma tensor_add_zero:
  assumes "length a = length b"
  shows "tensor_add a (map (\<lambda>d. 0 * d) (tensor_sub b a)) = a"
  using assms by (induction a b rule: list_induct2) (simp_all add: tensor_add_def tensor_sub_def)

lemma tensor_add_sub:
  assumes "length a = length b"
  shows "tensor_add a (map (\<lambda>d. 1 * d) (tensor_sub b a)) = b"
  using assms by (induction a b rule: list_induct2) (simp_all add: tensor_add_def tensor_sub_def)

lemma interpolated_encodings_endpoints:
  assumes "2 \<le> interpolation_steps" and "length encoding_1 = length encoding_2"
  shows "length (interpolated_encodings encoding_1 encoding_2 interpolation_steps) =
           interpolation_steps"
    and "hd (interpolated_encodings encoding_1 encoding_2 interpolation_steps) = encoding_1"
    and "last (interpolated_encodings encoding_1 encoding_2 interpolation_steps) = encoding_2"
proof -
  let ?n = interpolation_steps
  let ?f = "\<lambda>i. tensor_add encoding_1
              (map (\<lambda>d. real i * (d / real (?n - 1))) (tensor_sub encoding_2 encoding_1))"
  have walk: "interpolated_encodings encoding_1 encoding_2 ?n = map ?f [0..<?n]"
    using assms(1) by (simp add: interpolated_encodings_def tensor_linspace_def)
  show "length (interpolated_encodings encoding_1 encoding_2 ?n) = ?n"
    by (simp add: walk)
  have ne: "[0..<?n] \<noteq> []"
    using assms(1) by simp
  have "hd (map ?f [0..<?n]) = ?f 0"
    using ne by (simp add: hd_map)
  also have "\<dots> = encoding_1"
    using tensor_add_zero [OF assms(2)] by simp
  finally show "hd (interpolated_encodings encoding_1 encoding_2 ?n) = encoding_1"
    by (simp only: walk)
  have "last (map ?f [0..<?n]) = ?f (?n - 1)"
    using ne by (simp add: last_map)
  also have "\<dots> = tensor_add encoding_1 (map (\<lambda>d. 1 * d) (tensor_sub encoding_2 encoding_1))"
    using assms(1) by simp
  also have "\<dots> = encoding_2"
    by (rule tensor_add_sub [OF assms(2)])
  finally show "last (interpolated_encodings encoding_1 encoding_2 ?n) = encoding_2"
    by (simp only: walk)
qed

subsection \<open>Facts about the circular walk\<close>

lemma circular_loop_closed:
  "circular_loop generate_image fromarray encoding walk_steps batch_size walk_noise_x
     walk_noise_y ks images =
   images @ concat (map (\<lambda>k. map fromarray (generate_image encoding batch_size
      (map2 tensor_add
         (tensordot0 (map (\<lambda>t. cos (t * 2 * pi / real walk_steps))
            (linspace (real (batch_size * k)) (real (batch_size * (k + 1) - 1)) batch_size))
            walk_noise_x)
         (tensordot0 (map (\<lambda>t. sin (t * 2 * pi / real walk_steps))
            (linspace (real (batch_size * k)) (real (batch_size * (k + 1) - 1)) batch_size))
            walk_noise_y)))) ks)"
  by (induction ks arbitrary: images) (simp_all add: Let_def)

lemma circular_chunk:
  assumes "0 < batch_size"
  shows "map2 tensor_add
         (tensordot0 (map (\<lambda>t. cos (t * 2 * pi / real walk_steps))
            (linspace (real (batch_size * k)) (real (batch_size * (k + 1) - 1)) batch_size))
            walk_noise_x)
         (tensordot0 (map (\<lambda>t. sin (t * 2 * pi / real walk_steps))
            (linspace (real (batch_size * k)) (real (batch_size * (k + 1) - 1)) batch_size))
            walk_noise_y) =
       map (spec_circular_vector walk_steps walk_noise_x walk_noise_y)
         [batch_size * k..<batch_size * k + batch_size]"
proof -
  have "map2 tensor_add
         (tensordot0 (map (\<lambda>t. cos (t * 2 * pi / real walk_steps)) (map real ks)) walk_noise_x)
         (tensordot0 (map (\<lambda>t. sin (t * 2 * pi / real walk_steps)) (map real ks)) walk_noise_y) =
       map (spec_circular_vector walk_steps walk_noise_x walk_noise_y) ks" for ks
  proof -
    have angle: "real k * 2 * pi / real walk_steps = 2 * pi * real k / real walk_steps" for k
      by simp
    have point: "tensor_add (map (\<lambda>x. cos (real k * 2 * pi / real walk_steps) * x) walk_noise_x)
                   (map (\<lambda>y. sin (real k * 2 * pi / real walk_steps) * y) walk_noise_y) =
                 spec_circular_vector walk_steps walk_noise_x walk_noise_y k" for k
      by (simp only: spec_circular_vector_def angle)
    show ?thesis
      by (simp only: tensordot0_def map_map map2_map_map comp_def point)
  qed
  then show ?thesis
    by (simp only: linspace_batch [OF assms])
qed

lemma circular_walk_from_closed:
  assumes "0 < batch_size"
  shows "circular_walk_from (\<lambda>enc b noises. noises) (\<lambda>v. v) encoding walk_steps batch_size
           walk_noise_x walk_noise_y =
         Inr (map (spec_circular_vector walk_steps walk_noise_x walk_noise_y)
                [0..<walk_steps div batch_size * batch_size])"
proof -
  have nz: "batch_size \<noteq> 0"
    using assms by simp
  show ?thesis
    using nz
    by (simp only: circular_walk_from_def circular_loop_closed circular_chunk [OF assms]
        if_False append_Nil list.map_ident concat_chunks)
qed

lemma spec_circular_vector_0:
  assumes "length noise_x = length noise_y"
  shows "spec_circular_vector steps noise_x noise_y 0 = noise_x"
  using assms
  by (induction noise_x noise_y rule: list_induct2)
     (simp_all add: spec_circular_vector_def tensor_add_def)


subsection \<open>Facts about the random walk loop\<close>

text \<open>The walk loop, for any generator, in terms of the batches it stacks.\<close>

lemma batch_loop_length:
  "length (snd (snd (snd (batch_loop draw shape step_size seed n st)))) =
     length (snd (snd (snd st))) + n"
proof (induction n arbitrary: st)
  case 0
  then show ?case by simp
next
  case (Suc n)
  obtain h encoding g batch_encodings where st: "st = (h, encoding, g, batch_encodings)"
    by (cases st) auto
  show ?case
    by (simp add: st Let_def split_beta Suc)
qed

lemma tf_stack_length: "length (tf_stack h refs) = length refs"
  by (simp add: tf_stack_def)

lemma walk_loop_chunks:
  "walk_loop draw generate_image fromarray shape batch_size step_size seed noise n
     (h, encoding, g, images @ concat (map (\<lambda>c. map fromarray (generate_image c batch_size noise)) cs)) =
   (case walk_loop draw (\<lambda>e b z. [e]) (\<lambda>c. c) shape batch_size step_size seed noise n
           (h, encoding, g, cs) of
      (h', encoding', g', cs') \<Rightarrow>
        (h', encoding', g',
         images @ concat (map (\<lambda>c. map fromarray (generate_image c batch_size noise)) cs')))"
proof (induction n arbitrary: h encoding g cs)
  case 0
  then show ?case by simp
next
  case (Suc n)
  obtain h1 e1 g1 bs where batch:
    "batch_loop draw shape step_size seed batch_size (h, encoding, g, []) = (h1, e1, g1, bs)"
    by (cases "batch_loop draw shape step_size seed batch_size (h, encoding, g, [])") auto
  show ?case
    using Suc [of h1 e1 g1 "cs @ [tf_stack h1 bs]"]
    by (simp add: batch Let_def)
qed

lemma walk_loop_chunk_lengths:
  "map length (snd (snd (snd
      (walk_loop draw (\<lambda>e b z. [e]) (\<lambda>c. c) shape batch_size step_size seed noise n
         (h, encoding, g, cs))))) =
   map length cs @ replicate n batch_size"
proof (induction n arbitrary: h encoding g cs)
  case 0
  then show ?case by simp
next
  case (Suc n)
  obtain h1 e1 g1 bs where batch:
    "batch_loop draw shape step_size seed batch_size (h, encoding, g, []) = (h1, e1, g1, bs)"
    by (cases "batch_loop draw shape step_size seed batch_size (h, encoding, g, [])") auto
  have "length bs = batch_size"
    using batch_loop_length [of draw shape step_size seed batch_size "(h, encoding, g, [])"]
    by (simp add: batch)
  then show ?case
    using Suc [of h1 e1 g1 "cs @ [tf_stack h1 bs]"]
    by (simp add: batch Let_def tf_stack_length replicate_app_Cons_same)
qed

lemma random_walk_closed:
  assumes "0 < batch_size"
  shows "random_walk draw generate_image fromarray start shape walk_steps batch_size
           step_size seed noise g =
         map_sum id (\<lambda>cs. concat (map (\<lambda>c. map fromarray (generate_image c batch_size noise)) cs))
           (random_walk draw (\<lambda>e b z. [e]) (\<lambda>c. c) start shape walk_steps batch_size
              step_size seed noise g)"
proof -
  have nz: "batch_size \<noteq> 0"
    using assms by simp
  show ?thesis
    using walk_loop_chunks [of draw generate_image fromarray shape batch_size step_size seed
        noise "walk_steps div batch_size" "[start]" 0 g "[]" "[]"]
    by (simp add: random_walk_def nz split_beta)
qed

lemma random_walk_chunks:
  assumes "0 < batch_size"
  shows "map_sum id (map length)
           (random_walk draw (\<lambda>e b z. [e]) (\<lambda>c. c) start shape walk_steps batch_size
              step_size seed noise g) =
         Inr (replicate (walk_steps div batch_size) batch_size)"
  using assms walk_loop_chunk_lengths [of draw shape batch_size step_size seed noise
      "walk_steps div batch_size" "[start]" 0 g "[]"]
  by (simp add: random_walk_def)

lemma random_walk_frames:
  assumes "0 < batch_size"
  shows "random_walk draw (\<lambda>e b z. map (render z) e) fromarray start shape walk_steps
           batch_size step_size seed noise g =
         map_sum id (map (\<lambda>v. fromarray (render noise v)))
           (random_walk draw (\<lambda>e b z. e) (\<lambda>v. v) start shape walk_steps batch_size
              step_size seed noise g)"
  by (simp add: random_walk_closed [OF assms, of draw "\<lambda>e b z. map (render z) e"]
      random_walk_closed [OF assms, of draw "\<lambda>e b z. e"]
      sum.map_comp comp_def map_concat id_def)

lemma random_walk_length:
  assumes "0 < batch_size"
  shows "map_sum id length
           (random_walk draw (\<lambda>e b z. e) (\<lambda>v. v) start shape walk_steps batch_size
              step_size seed noise g) =
         Inr (walk_steps div batch_size * batch_size)"
proof -
  have "map_sum id length
           (random_walk draw (\<lambda>e b z. e) (\<lambda>v. v) start shape walk_steps batch_size
              step_size seed noise g) =
        map_sum id (\<lambda>ls. sum_list ls) (map_sum id (map length)
           (random_walk draw (\<lambda>e b z. [e]) (\<lambda>c. c) start shape walk_steps batch_size
              step_size seed noise g))"
    by (simp add: random_walk_closed [OF assms, of draw "\<lambda>e b z. e"]
        sum.map_comp comp_def length_concat)
  then show ?thesis
    by (simp add: random_walk_chunks [OF assms] sum_list_replicate)
qed

text \<open>
  The walk with the identity generator is the walk of the specification: the store
  only grows, so what \<^verbatim>\<open>tf.stack\<close> reads at the end of a batch is what was appended.
\<close>

lemma iadd_keeps_objects:
  assumes "a < length h"
  shows "fst (iadd h r delta) ! a = h ! a"
  using assms by (simp add: iadd_def nth_append)

lemma fresh_deltas_length:
  "length (fst (fresh_deltas draw shape step_size k n)) = n"
  by (induction n arbitrary: k) (simp_all add: split_beta Let_def)

lemma spec_random_walk_append:
  "spec_random_walk start (ds1 @ ds2) =
     spec_random_walk start ds1 @ spec_random_walk (foldl tensor_add start ds1) ds2"
  by (induction ds1 arbitrary: start) simp_all

lemma spec_random_walk_nth:
  "i < length deltas \<Longrightarrow>
   spec_random_walk start deltas ! i = foldl tensor_add start (take i deltas)"
proof (induction deltas arbitrary: start i)
  case Nil
  then show ?case by simp
next
  case (Cons d ds)
  then show ?case by (cases i) simp_all
qed

lemma spec_random_walk_step:
  assumes "Suc i < length deltas"
  shows "spec_random_walk start deltas ! Suc i =
           tensor_add (spec_random_walk start deltas ! i) (deltas ! i)"
proof -
  have i: "i < length deltas"
    using assms by simp
  have "take (Suc i) deltas = take i deltas @ [deltas ! i]"
    using i by (rule take_Suc_conv_app_nth)
  then show ?thesis
    using assms i by (simp add: spec_random_walk_nth)
qed

lemma fresh_deltas_add:
  "fresh_deltas draw shape step_size k (m + n) =
     (fst (fresh_deltas draw shape step_size k m) @
      fst (fresh_deltas draw shape step_size (snd (fresh_deltas draw shape step_size k m)) n),
      snd (fresh_deltas draw shape step_size (snd (fresh_deltas draw shape step_size k m)) n))"
  by (induction m arbitrary: k) (simp_all add: split_beta Let_def)

lemma batch_loop_spec:
  "encoding < length h \<Longrightarrow> \<forall>r\<in>set bs. r < length h \<Longrightarrow>
   batch_loop draw shape step_size seed n (h, encoding, g, bs) = (h', encoding', g', bs') \<Longrightarrow>
   tf_stack h' bs' =
     tf_stack h bs @ spec_random_walk (entries (h ! encoding))
       (fst (fresh_deltas draw shape step_size (kernels g (Some seed, Float32)) n)) \<and>
   encoding' < length h' \<and>
   entries (h' ! encoding') =
     foldl tensor_add (entries (h ! encoding))
       (fst (fresh_deltas draw shape step_size (kernels g (Some seed, Float32)) n)) \<and>
   kernels g' (Some seed, Float32) =
     snd (fresh_deltas draw shape step_size (kernels g (Some seed, Float32)) n)"
proof (induction n arbitrary: h encoding g bs)
  case 0
  then show ?case by simp
next
  case (Suc n)
  let ?k = "kernels g (Some seed, Float32)"
  obtain vals k1 where draw: "draw ?k shape = (vals, k1)"
    by (cases "draw ?k shape") auto
  let ?d = "map (\<lambda>x. x * step_size) vals"
  let ?g1 = "g\<lparr>kernels := (kernels g)((Some seed, Float32) := k1)\<rparr>"
  let ?h1 = "h @ [EagerTensor (tensor_add (entries (h ! encoding)) ?d)]"
  have k1: "kernels ?g1 (Some seed, Float32) = k1"
    by simp
  have deltas: "fresh_deltas draw shape step_size ?k (Suc n) =
      (?d # fst (fresh_deltas draw shape step_size k1 n),
       snd (fresh_deltas draw shape step_size k1 n))"
    by (simp add: draw split_beta)
  have stack1: "tf_stack ?h1 (bs @ [encoding]) = tf_stack h bs @ [entries (h ! encoding)]"
    using Suc.prems(1,2) by (simp add: tf_stack_def nth_append)
  have here: "entries (?h1 ! length h) = tensor_add (entries (h ! encoding)) ?d"
    by simp
  have step: "batch_loop draw shape step_size seed n (?h1, length h, ?g1, bs @ [encoding]) =
                (h', encoding', g', bs')"
    using Suc.prems(3) by (simp add: tf_random_normal_def draw iadd_def)
  have inside: "length h < length ?h1"
    by simp
  have refs: "\<forall>r\<in>set (bs @ [encoding]). r < length ?h1"
    using Suc.prems(1,2) by (auto simp: less_Suc_eq)
  note IH = Suc.IH [OF inside refs step]
  from IH show ?case
    by (simp only: stack1 here k1 deltas fst_conv snd_conv spec_random_walk.simps
        foldl_Cons append_assoc append_Cons append_Nil)
qed

lemma walk_loop_spec:
  "encoding < length h \<Longrightarrow>
   walk_loop draw (\<lambda>e b z. e) (\<lambda>v. v) shape batch_size step_size seed noise n
     (h, encoding, g, images) = (h', encoding', g', images') \<Longrightarrow>
   images' =
     images @ spec_random_walk (entries (h ! encoding))
       (fst (fresh_deltas draw shape step_size (kernels g (Some seed, Float32))
          (n * batch_size)))"
proof (induction n arbitrary: h encoding g images)
  case 0
  then show ?case by simp
next
  case (Suc n)
  let ?k = "kernels g (Some seed, Float32)"
  obtain h1 e1 g1 bs where batch:
    "batch_loop draw shape step_size seed batch_size (h, encoding, g, []) = (h1, e1, g1, bs)"
    by (cases "batch_loop draw shape step_size seed batch_size (h, encoding, g, [])") auto
  have none: "\<forall>r\<in>set []. r < length h"
    by simp
  note first = batch_loop_spec [OF Suc.prems(1) none batch]
  have stack: "tf_stack h1 bs = spec_random_walk (entries (h ! encoding))
      (fst (fresh_deltas draw shape step_size ?k batch_size))"
    using first by (simp add: tf_stack_def)
  have e1: "e1 < length h1"
    using first by simp
  have position: "entries (h1 ! e1) = foldl tensor_add (entries (h ! encoding))
      (fst (fresh_deltas draw shape step_size ?k batch_size))"
    using first by simp
  have state: "kernels g1 (Some seed, Float32) =
      snd (fresh_deltas draw shape step_size ?k batch_size)"
    using first by simp
  have step: "walk_loop draw (\<lambda>e b z. e) (\<lambda>v. v) shape batch_size step_size seed noise n
      (h1, e1, g1, images @ tf_stack h1 bs) = (h', encoding', g', images')"
    using Suc.prems(2) by (simp add: batch)
  have split: "fst (fresh_deltas draw shape step_size ?k (Suc n * batch_size)) =
      fst (fresh_deltas draw shape step_size ?k batch_size) @
      fst (fresh_deltas draw shape step_size
             (snd (fresh_deltas draw shape step_size ?k batch_size)) (n * batch_size))"
    using fresh_deltas_add [of draw shape step_size ?k batch_size "n * batch_size"]
    by simp
  show ?case
    using Suc.IH [OF e1 step]
    by (simp only: split spec_random_walk_append stack position state append_assoc)
qed

lemma random_walk_spec:
  assumes "0 < batch_size"
  shows "random_walk draw (\<lambda>e b z. e) (\<lambda>v. v) start shape walk_steps batch_size step_size
           seed noise g =
         Inr (spec_random_walk (entries start)
                (fst (fresh_deltas draw shape step_size (kernels g (Some seed, Float32))
                   (walk_steps div batch_size * batch_size))))"
proof -
  obtain h' e' g' images' where run:
    "walk_loop draw (\<lambda>e b z. e) (\<lambda>v. v) shape batch_size step_size seed noise
       (walk_steps div batch_size) ([start], 0, g, []) = (h', e', g', images')"
    by (cases "walk_loop draw (\<lambda>e b z. e) (\<lambda>v. v) shape batch_size step_size seed noise
       (walk_steps div batch_size) ([start], 0, g, [])") auto
  have inside: "0 < length [start]"
    by simp
  have "images' = [] @ spec_random_walk (entries ([start] ! 0))
      (fst (fresh_deltas draw shape step_size (kernels g (Some seed, Float32))
         (walk_steps div batch_size * batch_size)))"
    by (rule walk_loop_spec [OF inside run])
  then show ?thesis
    using assms by (simp add: random_walk_def run)
qed

lemma random_walk_chunks_concat:
  assumes "0 < batch_size"
  shows "map_sum id concat
           (random_walk draw (\<lambda>e b z. [e]) (\<lambda>c. c) start shape walk_steps batch_size
              step_size seed noise g) =
         Inr (spec_random_walk (entries start)
                (fst (fresh_deltas draw shape step_size (kernels g (Some seed, Float32))
                   (walk_steps div batch_size * batch_size))))"
proof -
  have "map_sum id concat
           (random_walk draw (\<lambda>e b z. [e]) (\<lambda>c. c) start shape walk_steps batch_size
              step_size seed noise g) =
        random_walk draw (\<lambda>e b z. e) (\<lambda>v. v) start shape walk_steps batch_size
              step_size seed noise g"
    by (simp add: random_walk_closed [OF assms, of draw "\<lambda>e b z. e"] id_def)
  then show ?thesis
    by (simp only: random_walk_spec [OF assms])
qed

lemma fine_interpolation_chunks_concat:
  assumes "0 < batch_size"
  shows "map_sum id concat
           (fine_interpolation (\<lambda>e b z. [e]) (\<lambda>c. c) encoding_1 encoding_2
              interpolation_steps batch_size noise) =
         Inr (map (\<lambda>i. tensor_add encoding_1
                        (map (\<lambda>x. real i * x)
                           (tensor_div (tensor_sub encoding_2 encoding_1)
                              (real interpolation_steps))))
                [0..<interpolation_steps div batch_size * batch_size])"
proof -
  have "concat (concat (map (\<lambda>k. [f k]) ks)) = concat (map f ks)" for f :: "nat \<Rightarrow> tensor list" and ks
    by (induction ks) simp_all
  then show ?thesis
    by (simp add: fine_interpolation_closed [OF assms] concat_chunks)
qed

text \<open>A run with deltas 1, 2, 3, 4 from a NumPy array as the start.\<close>

lemma random_walk_example:
  "random_walk (\<lambda>k n. (replicate n (real k + 1), k + n)) (\<lambda>e b z. e) (\<lambda>v. v)
     (NdArray [0]) 1 4 2 1 12345 [] (initial_random (\<lambda>s dt. 0) (\<lambda>dt. 0)) =
   Inr [[0], [1], [3], [6]]"
proof -
  have batches: "(4::nat) div Suc (Suc 0) = Suc (Suc 0)"
    by (simp flip: numeral_2_eq_2)
  show ?thesis
    by (simp add: random_walk_def numeral_2_eq_2 batches Let_def tf_random_normal_def iadd_def
        tf_stack_def tensor_add_def initial_random_def)
qed

subsection \<open>Seeded draws read one kernel only\<close>

text \<open>
  The walk draws from the kernel of its seed and of \<open>Float32\<close>; the state of any other
  kernel, the unseeded ones among them, does not reach its result.
\<close>

lemma tf_random_normal_other_kernel:
  assumes "key \<noteq> (seed, dt)"
  shows "tf_random_normal draw shape stddev seed dt (g\<lparr>kernels := (kernels g)(key := v)\<rparr>) =
     (fst (tf_random_normal draw shape stddev seed dt g),
      (snd (tf_random_normal draw shape stddev seed dt g))
        \<lparr>kernels := (kernels (snd (tf_random_normal draw shape stddev seed dt g)))(key := v)\<rparr>)"
  using assms by (simp add: tf_random_normal_def split_beta fun_upd_twist)

lemma batch_loop_other_kernel:
  assumes "key \<noteq> (Some seed, Float32)"
  shows "batch_loop draw shape step_size seed n
     (h, encoding, g\<lparr>kernels := (kernels g)(key := v)\<rparr>, batch_encodings) =
   (case batch_loop draw shape step_size seed n (h, encoding, g, batch_encodings) of
      (h', encoding', g', batch_encodings') \<Rightarrow>
        (h', encoding', g'\<lparr>kernels := (kernels g')(key := v)\<rparr>, batch_encodings'))"
proof (induction n arbitrary: h encoding g batch_encodings)
  case 0
  then show ?case by simp
next
  case (Suc n)
  obtain d g1 where rnd:
    "tf_random_normal draw shape step_size (Some seed) Float32 g = (d, g1)"
    by (cases "tf_random_normal draw shape step_size (Some seed) Float32 g") auto
  have rnd': "tf_random_normal draw shape step_size (Some seed) Float32
      (g\<lparr>kernels := (kernels g)(key := v)\<rparr>) = (d, g1\<lparr>kernels := (kernels g1)(key := v)\<rparr>)"
    by (simp only: tf_random_normal_other_kernel [OF assms] rnd fst_conv snd_conv)
  obtain h1 e1 where ia: "iadd h encoding d = (h1, e1)"
    by (cases "iadd h encoding d") auto
  show ?case
    by (simp only: batch_loop.simps Let_def rnd rnd' ia prod.case Suc.IH)
qed

lemma walk_loop_other_kernel:
  assumes "key \<noteq> (Some seed, Float32)"
  shows "walk_loop draw generate_image fromarray shape batch_size step_size seed noise n
     (h, encoding, g\<lparr>kernels := (kernels g)(key := v)\<rparr>, images) =
   (case walk_loop draw generate_image fromarray shape batch_size step_size seed noise n
           (h, encoding, g, images) of
      (h', encoding', g', images') \<Rightarrow>
        (h', encoding', g'\<lparr>kernels := (kernels g')(key := v)\<rparr>, images'))"
proof (induction n arbitrary: h encoding g images)
  case 0
  then show ?case by simp
next
  case (Suc n)
  obtain h1 e1 g1 bs where batch:
    "batch_loop draw shape step_size seed batch_size (h, encoding, g, []) = (h1, e1, g1, bs)"
    by (cases "batch_loop draw shape step_size seed batch_size (h, encoding, g, [])") auto
  have batch': "batch_loop draw shape step_size seed batch_size
      (h, encoding, g\<lparr>kernels := (kernels g)(key := v)\<rparr>, []) =
      (h1, e1, g1\<lparr>kernels := (kernels g1)(key := v)\<rparr>, bs)"
    by (simp only: batch_loop_other_kernel [OF assms] batch prod.case)
  show ?case
    by (simp only: walk_loop.simps Let_def batch batch' prod.case Suc.IH)
qed

lemma random_walk_other_kernel:
  assumes "key \<noteq> (Some seed, Float32)"
  shows "random_walk draw generate_image fromarray start shape walk_steps batch_size step_size
     seed noise (g\<lparr>kernels := (kernels g)(key := v)\<rparr>) =
   random_walk draw generate_image fromarray start shape walk_steps batch_size step_size
     seed noise g"
  by (simp add: random_walk_def walk_loop_other_kernel [OF assms] split_beta)

lemma script_random_walk_other_kernel:
  assumes "key \<noteq> (Some seed, Float32)"
  shows "script_random_walk draw generate_image fromarray start noise_shape shape walk_steps
     batch_size step_size seed (g\<lparr>kernels := (kernels g)(key := v)\<rparr>) =
   script_random_walk draw generate_image fromarray start noise_shape shape walk_steps
     batch_size step_size seed g"
  by (simp add: script_random_walk_def tf_random_normal_other_kernel [OF assms] split_beta
      random_walk_other_kernel [OF assms])

lemma initial_random_entropy:
  "initial_random seeded entropy' =
     (let g = initial_random seeded entropy;
          g = g\<lparr>kernels := (kernels g)((None, Float32) := entropy' Float32)\<rparr>
      in g\<lparr>kernels := (kernels g)((None, Float64) := entropy' Float64)\<rparr>)"
proof -
  have "(case fst key of Some s \<Rightarrow> seeded s (snd key) | None \<Rightarrow> entropy' (snd key)) =
        ((\<lambda>key. case fst key of Some s \<Rightarrow> seeded s (snd key) | None \<Rightarrow> entropy (snd key))
           ((None, Float32) := entropy' Float32, (None, Float64) := entropy' Float64)) key"
    for key :: "int option \<times> dtype"
  proof (cases key)
    case (Pair seed dt)
    then show ?thesis
      by (cases seed; cases dt) simp_all
  qed
  then show ?thesis
    by (simp add: initial_random_def Let_def fun_eq_iff)
qed

lemma script_random_walk_entropy:
  "script_random_walk draw generate_image fromarray start noise_shape shape walk_steps
     batch_size step_size seed (initial_random seeded entropy') =
   script_random_walk draw generate_image fromarray start noise_shape shape walk_steps
     batch_size step_size seed (initial_random seeded entropy)"
proof -
  have k32: "(None, Float32) \<noteq> (Some seed, Float32)" and k64: "(None, Float64) \<noteq> (Some seed, Float32)"
    by simp_all
  show ?thesis
    by (simp only: initial_random_entropy [of seeded entropy' entropy] Let_def
        script_random_walk_other_kernel [OF k32] script_random_walk_other_kernel [OF k64])
qed

subsection \<open>The first vector of the circular walk\<close>

lemma circular_walk_first:
  assumes "0 < batch_size" and "batch_size \<le> walk_steps"
    and "\<forall>k n. length (fst (draw k n)) = n"
  shows "map_sum id (\<lambda>walk. walk ! 0)
           (circular_walk draw (\<lambda>enc b noises. noises) (\<lambda>v. v) encoding shape walk_steps
              batch_size g) =
         Inr (fst (draw (kernels g (None, Float64)) shape))"
proof -
  let ?k = "kernels g (None, Float64)"
  let ?x = "fst (draw ?k shape)"
  let ?y = "fst (draw (snd (draw ?k shape)) shape)"
  have unit: "map (\<lambda>x. x * 1) v = v" for v :: tensor
    by simp
  have walk: "circular_walk draw (\<lambda>enc b noises. noises) (\<lambda>v. v) encoding shape walk_steps
      batch_size g =
      Inr (map (spec_circular_vector walk_steps ?x ?y)
             [0..<walk_steps div batch_size * batch_size])"
    by (simp add: circular_walk_def tf_random_normal_def split_beta Let_def
        circular_walk_from_closed [OF assms(1)])
  have "0 < walk_steps div batch_size"
    using assms(1,2) by (simp add: div_greater_zero_iff)
  then have some: "0 < walk_steps div batch_size * batch_size"
    using assms(1) by simp
  have same: "length ?x = length ?y"
    using assms(3) by simp
  show ?thesis
    using some by (simp add: walk spec_circular_vector_0 [OF same])
qed

section \<open>The exporter\<close>

text \<open>
  C1. With \<open>rubber_band\<close> the exporter is to append the reversed interior of the
  sequence, all frames but the first and the last, so that four frames A, B, C, D give
  A, B, C, D, C, B. The slice in the code is \<^verbatim>\<open>images[2:-1]\<close>: it leaves out the
  first two frames, and the four frames give A, B, C, D, C, one frame short.
\<close>

theorem export_as_gif_rubber_band_four_frames:
  "export_as_gif ''doggo-and-fruit-5.gif'' [''A'', ''B'', ''C'', ''D''] 2 True =
     ([''A'', ''B'', ''C'', ''D'', ''C''],
      Inr \<lparr>filename = ''doggo-and-fruit-5.gif'',
           frames = [''A'', ''B'', ''C'', ''D'', ''C''], duration = 500, loop = 0\<rparr>)"
  by (simp add: export_as_gif_def py_slice_def slice_bound_def Let_def)

text \<open>
  C6, as the claim states it: every frame is shown for exactly 1000 / framesPerSecond
  milliseconds. At three frames per second the duration the exporter asks for is 333
  milliseconds, which is not 1000 / 3.
\<close>

theorem export_as_gif_duration_not_exact:
  "snd (export_as_gif ''cows.gif'' [''A''] 3 False) =
     Inr \<lparr>filename = ''cows.gif'', frames = [''A''], duration = 333, loop = 0\<rparr> \<and>
   real_of_int (duration (projr (snd (export_as_gif ''cows.gif'' [''A''] 3 False))))
     \<noteq> 1000 / real_of_int 3"
  by (simp add: export_as_gif_def py_slice_def slice_bound_def Let_def)

text \<open>
  C6, amended: for a positive whole rate and a sequence that is not empty, the exporter
  makes the save call, and the duration per frame it passes to the call is
  1000 / framesPerSecond rounded down to a whole number of milliseconds; that argument
  is exactly 1000 / framesPerSecond when and only when the rate divides 1000. The time
  a player shows a frame for is what the image library encodes from the argument, which
  is not the exporter's code.
\<close>

theorem export_as_gif_duration:
  assumes "0 < frames_per_second" and "images \<noteq> []"
  shows "\<exists>g. snd (export_as_gif file images frames_per_second rubber_band) = Inr g \<and>
             duration g = \<lfloor>1000 / real_of_int frames_per_second\<rfloor> \<and>
             (real_of_int (duration g) = 1000 / real_of_int frames_per_second
                \<longleftrightarrow> frames_per_second dvd 1000)"
proof -
  have nz: "frames_per_second \<noteq> 0"
    using assms(1) by simp
  have fl: "\<lfloor>1000 / real_of_int frames_per_second\<rfloor> = 1000 div frames_per_second"
    using floor_divide_of_int_eq [of 1000 frames_per_second] by simp
  have exact: "real_of_int (1000 div frames_per_second) = 1000 / real_of_int frames_per_second
          \<longleftrightarrow> frames_per_second dvd 1000"
  proof
    assume "real_of_int (1000 div frames_per_second) = 1000 / real_of_int frames_per_second"
    then have "real_of_int (1000 div frames_per_second * frames_per_second) = real_of_int 1000"
      using nz by (simp add: field_simps)
    then have "1000 div frames_per_second * frames_per_second = 1000"
      by (simp only: of_int_eq_iff)
    then show "frames_per_second dvd 1000"
      by (metis dvd_triv_right)
  next
    assume "frames_per_second dvd 1000"
    then show "real_of_int (1000 div frames_per_second) = 1000 / real_of_int frames_per_second"
      using real_of_int_div [of frames_per_second 1000] by simp
  qed
  show ?thesis
    using export_as_gif_frames [OF assms(2) nz] fl exact
    by (simp add: Let_def)
qed

theorem export_as_gif_duration_witness:
  "(0::int) < 3 \<and> [''A''] \<noteq> [] \<and>
   (\<exists>g. snd (export_as_gif ''cows.gif'' [''A''] 3 False) = Inr g \<and>
        duration g = \<lfloor>1000 / real_of_int 3\<rfloor> \<and>
        (real_of_int (duration g) = 1000 / real_of_int 3 \<longleftrightarrow> (3::int) dvd 1000))"
proof -
  have pos: "(0::int) < 3" and ne: "[''A''] \<noteq> []"
    by simp_all
  show ?thesis
    using export_as_gif_duration [OF pos ne, of "''cows.gif''" False] pos ne by blast
qed

text \<open>
  C7. Exporting an empty sequence fails, whatever the rate and with or without the
  rubber band: \<^verbatim>\<open>images[0]\<close> raises. The exception is Python's IndexError, which is
  what the script has for the specification's InvalidArgument; it is raised before the
  rate is looked at, so a rate of zero gives the same error.
\<close>

theorem export_as_gif_empty:
  "snd (export_as_gif file [] frames_per_second rubber_band) = Inl IndexError"
  by (simp add: export_as_gif_def py_slice_def)

text \<open>
  C9, as the claim states it: the caller's list is left as it was. With the rubber band
  the list of four frames A, B, C, D is not the same list after the call.
\<close>

theorem export_as_gif_extends_callers_list:
  "fst (export_as_gif ''ducky.gif'' [''A'', ''B'', ''C'', ''D''] 10 True)
     \<noteq> [''A'', ''B'', ''C'', ''D'']"
  by (simp add: export_as_gif_def py_slice_def slice_bound_def Let_def)

text \<open>
  C9, amended: without the rubber band the caller's list is left as it was. With the
  rubber band the extension is made in the caller's list: after the call the list
  still starts with the frames it had, and it is the very sequence of frames that was
  written to the file.
\<close>

theorem export_as_gif_callers_list:
  "fst (export_as_gif file images frames_per_second False) = images \<and>
   take (length images) (fst (export_as_gif file images frames_per_second True)) = images \<and>
   (case snd (export_as_gif file images frames_per_second True) of
      Inl e \<Rightarrow> True
    | Inr g \<Rightarrow> frames g = fst (export_as_gif file images frames_per_second True))"
  by (cases images) (auto simp: export_as_gif_def Let_def py_slice_tail py_slice_interior)

theorem export_as_gif_callers_list_witness:
  "fst (export_as_gif ''ducky.gif'' [''A'', ''B'', ''C'', ''D''] 10 False)
     = [''A'', ''B'', ''C'', ''D''] \<and>
   take (length [''A'', ''B'', ''C'', ''D''])
     (fst (export_as_gif ''ducky.gif'' [''A'', ''B'', ''C'', ''D''] 10 True))
     = [''A'', ''B'', ''C'', ''D''] \<and>
   frames (projr (snd (export_as_gif ''ducky.gif'' [''A'', ''B'', ''C'', ''D''] 10 True)))
     = fst (export_as_gif ''ducky.gif'' [''A'', ''B'', ''C'', ''D''] 10 True)"
proof -
  obtain g where g: "snd (export_as_gif ''ducky.gif'' [''A'', ''B'', ''C'', ''D''] 10 True) = Inr g"
    by (simp add: export_as_gif_def Let_def)
  note facts = export_as_gif_callers_list [of "''ducky.gif''" "[''A'', ''B'', ''C'', ''D'']" 10]
  have "frames g = fst (export_as_gif ''ducky.gif'' [''A'', ''B'', ''C'', ''D''] 10 True)"
    using facts by (simp only: g sum.case)
  then have "frames (projr (snd (export_as_gif ''ducky.gif'' [''A'', ''B'', ''C'', ''D''] 10 True)))
               = fst (export_as_gif ''ducky.gif'' [''A'', ''B'', ''C'', ''D''] 10 True)"
    by (simp only: g sum.sel)
  then show ?thesis
    using facts by blast
qed

text \<open>
  C10. A sequence of one or two frames, exported with the rubber band at a positive
  rate: the interior slice is empty, nothing is appended, no error is raised, and the
  file holds the frames that were given, in their order.
\<close>

theorem export_as_gif_short_rubber_band:
  assumes "length images = 1 \<or> length images = 2" and "0 < frames_per_second"
  shows "export_as_gif file images frames_per_second True =
           (images, Inr \<lparr>filename = file, frames = images,
                         duration = 1000 div frames_per_second, loop = 0\<rparr>)"
proof -
  have ne: "images \<noteq> []" and nz: "frames_per_second \<noteq> 0"
    using assms by auto
  have "drop 2 (butlast images) = []"
    using assms(1) by auto
  then show ?thesis
    using export_as_gif_frames [OF ne nz] by (simp add: Let_def)
qed

theorem export_as_gif_short_rubber_band_witness:
  "(length [''A'', ''B''] = 1 \<or> length [''A'', ''B''] = 2) \<and> (0::int) < 10 \<and>
   export_as_gif ''ducky.gif'' [''A'', ''B''] 10 True =
     ([''A'', ''B''], Inr \<lparr>filename = ''ducky.gif'', frames = [''A'', ''B''],
                           duration = 100, loop = 0\<rparr>)"
proof -
  have len: "length [''A'', ''B''] = 1 \<or> length [''A'', ''B''] = 2" and pos: "(0::int) < 10"
    by simp_all
  show ?thesis
    using export_as_gif_short_rubber_band [OF len pos, of "''ducky.gif''"] len pos by simp
qed

section \<open>The batched sampler\<close>

text \<open>
  In the theorems of this section and the next the generator is instantiated to
  observe the loop: \<open>\<lambda>e b z. e\<close> returns the batch of vectors it is given, so that the
  images are the walk itself; \<open>\<lambda>e b z. [e]\<close> returns one item per call, the batch, so
  that the images are the list of chunks; \<open>\<lambda>e b z. map (render z) e\<close> renders every
  vector on its own.
\<close>

text \<open>
  C2, as the claim states it: a walk of length L gives L frames in \<open>ceil(L / B)\<close>
  chunks, the short last chunk included. The loops run \<^verbatim>\<open>range(L // B)\<close> times: with
  L = 10 and B = 4 the sampler is called for two chunks of four vectors and returns
  eight frames; the last two vectors are never generated.
\<close>

theorem batched_sampler_drops_short_chunk:
  "map_sum id length (fine_interpolation (\<lambda>e b z. e) (\<lambda>v. v) [0] [1] 10 4 []) = Inr 8 \<and>
   map_sum id length (fine_interpolation (\<lambda>e b z. e) (\<lambda>v. v) [0] [1] 10 4 []) \<noteq> Inr 10 \<and>
   map_sum id (map length) (fine_interpolation (\<lambda>e b z. [e]) (\<lambda>c. c) [0] [1] 10 4 [])
     = Inr [4, 4] \<and>
   map_sum id length (fine_interpolation (\<lambda>e b z. [e]) (\<lambda>c. c) [0] [1] 10 4 []) \<noteq> Inr 3"
proof -
  have pos: "0 < (4::nat)"
    by simp
  have batches: "(10::nat) div 4 = 2"
    by simp
  have walk: "map_sum id length
      (fine_interpolation (\<lambda>e b z. e) (\<lambda>v. v) [0] [1] 10 4 []) = Inr 8"
    by (simp add: fine_interpolation_walk [OF pos] batches)
  have chunks: "map_sum id (map length)
      (fine_interpolation (\<lambda>e b z. [e]) (\<lambda>c. c) [0] [1] 10 4 []) = Inr [4, 4]"
    by (simp add: fine_interpolation_chunks [OF pos] batches numeral_2_eq_2)
  have "map_sum id length (fine_interpolation (\<lambda>e b z. [e]) (\<lambda>c. c) [0] [1] 10 4 []) = Inr 2"
    using chunks by (cases "fine_interpolation (\<lambda>e b z. [e]) (\<lambda>c. c) [0::real] [1] 10 4 []") auto
  then show ?thesis
    using walk chunks by simp
qed

text \<open>
  C2, amended: for a positive batch size B, both batching loops (the fine-grained
  interpolation and the random walk) call the generator for \<open>L div B\<close> chunks of
  exactly B vectors each, and the chunks, one after the other, are the first
  \<open>(L div B) * B\<close> vectors of the walk in the order of the walk: for the interpolation
  the vector of index \<open>i\<close> is \<open>encoding_1 + i * encoding_step\<close>, for the random walk it is
  the start plus the first \<open>i\<close> deltas. The frames are the renderings of these vectors
  in that order. The output has L frames when and only when B divides L; the last
  \<open>L mod B\<close> vectors are not processed.
\<close>

theorem batched_sampler_frames:
  assumes "0 < batch_size"
  shows "fine_interpolation (\<lambda>e b z. map (render z) e) fromarray encoding_1 encoding_2
           steps batch_size noise =
         Inr (map (\<lambda>i. fromarray (render noise
                      (tensor_add encoding_1
                         (map (\<lambda>x. real i * x)
                            (tensor_div (tensor_sub encoding_2 encoding_1) (real steps))))))
                [0..<steps div batch_size * batch_size]) \<and>
         map_sum id concat
           (fine_interpolation (\<lambda>e b z. [e]) (\<lambda>c. c) encoding_1 encoding_2 steps batch_size
              noise) =
         Inr (map (\<lambda>i. tensor_add encoding_1
                      (map (\<lambda>x. real i * x)
                         (tensor_div (tensor_sub encoding_2 encoding_1) (real steps))))
                [0..<steps div batch_size * batch_size]) \<and>
         map_sum id (map length)
           (fine_interpolation (\<lambda>e b z. [e]) (\<lambda>c. c) encoding_1 encoding_2 steps batch_size
              noise) = Inr (replicate (steps div batch_size) batch_size) \<and>
         random_walk draw (\<lambda>e b z. map (render z) e) fromarray start shape steps
           batch_size step_size seed noise g =
         Inr (map (\<lambda>v. fromarray (render noise v))
                (spec_random_walk (entries start)
                   (fst (fresh_deltas draw shape step_size (kernels g (Some seed, Float32))
                      (steps div batch_size * batch_size))))) \<and>
         map_sum id concat
           (random_walk draw (\<lambda>e b z. [e]) (\<lambda>c. c) start shape steps batch_size
              step_size seed noise g) =
         Inr (spec_random_walk (entries start)
                (fst (fresh_deltas draw shape step_size (kernels g (Some seed, Float32))
                   (steps div batch_size * batch_size)))) \<and>
         map_sum id (map length)
           (random_walk draw (\<lambda>e b z. [e]) (\<lambda>c. c) start shape steps batch_size
              step_size seed noise g) = Inr (replicate (steps div batch_size) batch_size) \<and>
         (steps div batch_size * batch_size = steps \<longleftrightarrow> batch_size dvd steps)"
proof -
  have f1: "fine_interpolation (\<lambda>e b z. map (render z) e) fromarray encoding_1 encoding_2
           steps batch_size noise =
         Inr (map (\<lambda>i. fromarray (render noise
                      (tensor_add encoding_1
                         (map (\<lambda>x. real i * x)
                            (tensor_div (tensor_sub encoding_2 encoding_1) (real steps))))))
                [0..<steps div batch_size * batch_size])"
    by (simp add: fine_interpolation_frames [OF assms] fine_interpolation_walk [OF assms]
        comp_def)
  have f2: "map_sum id concat
           (fine_interpolation (\<lambda>e b z. [e]) (\<lambda>c. c) encoding_1 encoding_2 steps batch_size
              noise) =
         Inr (map (\<lambda>i. tensor_add encoding_1
                      (map (\<lambda>x. real i * x)
                         (tensor_div (tensor_sub encoding_2 encoding_1) (real steps))))
                [0..<steps div batch_size * batch_size])"
    by (rule fine_interpolation_chunks_concat [OF assms])
  have f3: "map_sum id (map length)
           (fine_interpolation (\<lambda>e b z. [e]) (\<lambda>c. c) encoding_1 encoding_2 steps batch_size
              noise) = Inr (replicate (steps div batch_size) batch_size)"
    by (rule fine_interpolation_chunks [OF assms])
  have r1: "random_walk draw (\<lambda>e b z. map (render z) e) fromarray start shape steps
           batch_size step_size seed noise g =
         Inr (map (\<lambda>v. fromarray (render noise v))
                (spec_random_walk (entries start)
                   (fst (fresh_deltas draw shape step_size (kernels g (Some seed, Float32))
                      (steps div batch_size * batch_size)))))"
    by (simp add: random_walk_frames [OF assms] random_walk_spec [OF assms])
  have r2: "map_sum id concat
           (random_walk draw (\<lambda>e b z. [e]) (\<lambda>c. c) start shape steps batch_size
              step_size seed noise g) =
         Inr (spec_random_walk (entries start)
                (fst (fresh_deltas draw shape step_size (kernels g (Some seed, Float32))
                   (steps div batch_size * batch_size))))"
    by (rule random_walk_chunks_concat [OF assms])
  have r3: "map_sum id (map length)
           (random_walk draw (\<lambda>e b z. [e]) (\<lambda>c. c) start shape steps batch_size
              step_size seed noise g) = Inr (replicate (steps div batch_size) batch_size)"
    by (rule random_walk_chunks [OF assms])
  have d: "steps div batch_size * batch_size = steps \<longleftrightarrow> batch_size dvd steps"
    by (metis dvd_div_mult_self dvd_triv_right)
  from f1 f2 f3 r1 r2 r3 d show ?thesis
    by (intro conjI)
qed

theorem batched_sampler_frames_witness:
  "0 < (4::nat) \<and>
   fine_interpolation (\<lambda>e b z. map (\<lambda>v. z @ v) e) (\<lambda>a. a) [0] [1] 10 4 [7] =
     Inr (map (\<lambda>i. [7] @ tensor_add [0]
                 (map (\<lambda>x. real i * x) (tensor_div (tensor_sub [1] [0]) (real 10))))
            [0..<10 div 4 * 4]) \<and>
   map_sum id concat (fine_interpolation (\<lambda>e b z. [e]) (\<lambda>c. c) [0] [1] 10 4 [7]) =
     Inr (map (\<lambda>i. tensor_add [0]
                 (map (\<lambda>x. real i * x) (tensor_div (tensor_sub [1] [0]) (real 10))))
            [0..<10 div 4 * 4]) \<and>
   map_sum id (map length) (fine_interpolation (\<lambda>e b z. [e]) (\<lambda>c. c) [0] [1] 10 4 [7])
     = Inr (replicate (10 div 4) 4) \<and>
   random_walk (\<lambda>k n. (replicate n (real k + 1), k + n)) (\<lambda>e b z. map (\<lambda>v. z @ v) e)
       (\<lambda>a. a) (NdArray [0]) 1 10 4 1 12345 [7]
       (initial_random (\<lambda>s dt. 0) (\<lambda>dt. 0)) =
     Inr (map (\<lambda>v. [7] @ v)
            (spec_random_walk (entries (NdArray [0]))
               (fst (fresh_deltas (\<lambda>k n. (replicate n (real k + 1), k + n)) 1 1
                  (kernels (initial_random (\<lambda>s dt. 0) (\<lambda>dt. 0)) (Some 12345, Float32))
                  (10 div 4 * 4))))) \<and>
   map_sum id concat
       (random_walk (\<lambda>k n. (replicate n (real k + 1), k + n)) (\<lambda>e b z. [e]) (\<lambda>c. c)
          (NdArray [0]) 1 10 4 1 12345 [7] (initial_random (\<lambda>s dt. 0) (\<lambda>dt. 0))) =
     Inr (spec_random_walk (entries (NdArray [0]))
            (fst (fresh_deltas (\<lambda>k n. (replicate n (real k + 1), k + n)) 1 1
               (kernels (initial_random (\<lambda>s dt. 0) (\<lambda>dt. 0)) (Some 12345, Float32))
               (10 div 4 * 4)))) \<and>
   map_sum id (map length)
       (random_walk (\<lambda>k n. (replicate n (real k + 1), k + n)) (\<lambda>e b z. [e]) (\<lambda>c. c)
          (NdArray [0]) 1 10 4 1 12345 [7] (initial_random (\<lambda>s dt. 0) (\<lambda>dt. 0)))
     = Inr (replicate (10 div 4) 4) \<and>
   ((10::nat) div 4 * 4 = 10 \<longleftrightarrow> (4::nat) dvd 10)"
proof -
  have pos: "0 < (4::nat)"
    by simp
  show ?thesis
    by (rule conjI [OF pos batched_sampler_frames [OF pos]])
qed

section \<open>The walks\<close>

text \<open>
  C3. The linear-interpolation walk is to start at vectorA and end at vectorB exactly,
  and from [0,0] to [1,1] in three steps it is to be [[0,0],[0.5,0.5],[1,1]].
  \<^verbatim>\<open>tf.linspace\<close> on the two encodings does that (second line, and
  \<open>interpolated_encodings_endpoints\<close> in general). The fine-grained interpolation
  steps by \<^verbatim>\<open>(encoding_2 - encoding_1) / interpolation_steps\<close> from offset 0 to offset
  \<^verbatim>\<open>interpolation_steps - 1\<close>, so it stops one step before vectorB: from [0,0] to
  [1,1] in four steps its last vector is [3/4, 3/4].
\<close>

theorem fine_interpolation_stops_short:
  "fine_interpolation (\<lambda>e b z. e) (\<lambda>v. v) [0, 0] [1, 1] 4 2 [] =
     Inr [[0, 0], [1/4, 1/4], [1/2, 1/2], [3/4, 3/4]] \<and>
   interpolated_encodings [0, 0] [1, 1] 3 = [[0, 0], [1/2, 1/2], [1, 1]]"
  by (simp add: fine_interpolation_def Let_def tensor_div_def tensor_sub_def tensor_add_def
      broadcast_add_def tensordot0_def linspace_def interpolated_encodings_def
      tensor_linspace_def upt_conv_Cons)




text \<open>
  C5, as the claim states it: the base tensors of the circular walk come from a seeded
  stream, so that a second run gives the same walk. The two draws pass no seed: two
  runs whose entropy differs (all else equal) give different walks.
\<close>

theorem circular_walk_unseeded:
  "circular_walk (\<lambda>k n. (replicate n (real k), k + n)) (\<lambda>enc b noises. noises) (\<lambda>v. v)
     [] 1 1 1 (initial_random (\<lambda>s dt. 0) (\<lambda>dt. 1)) = Inr [[1]] \<and>
   circular_walk (\<lambda>k n. (replicate n (real k), k + n)) (\<lambda>enc b noises. noises) (\<lambda>v. v)
     [] 1 1 1 (initial_random (\<lambda>s dt. 0) (\<lambda>dt. 2)) = Inr [[2]] \<and>
   circular_walk (\<lambda>k n. (replicate n (real k), k + n)) (\<lambda>enc b noises. noises) (\<lambda>v. v)
     [] 1 1 1 (initial_random (\<lambda>s dt. 0) (\<lambda>dt. 1)) \<noteq>
   circular_walk (\<lambda>k n. (replicate n (real k), k + n)) (\<lambda>enc b noises. noises) (\<lambda>v. v)
     [] 1 1 1 (initial_random (\<lambda>s dt. 0) (\<lambda>dt. 2))"
  by (simp add: circular_walk_def circular_walk_from_def tf_random_normal_def Let_def
      linspace_def tensordot0_def tensor_add_def initial_random_def)

text \<open>
  C5, amended: the random walk is deterministic given its seed: two runs of the script
  with the same start, shapes, steps, batch size, step size and seed give the same
  walk, whatever the entropy of the runs. The base tensors of the circular walk are
  drawn with no seed: the first vector of the circular walk is the first value drawn
  from the unseeded float64 generator, whose state at the start of a run is the run's
  entropy, so the circular walk is not fixed by any seed.
\<close>

theorem walks_deterministic:
  "script_random_walk draw generate_image fromarray start noise_shape shape walk_steps
     batch_size step_size seed (initial_random seeded entropy1) =
   script_random_walk draw generate_image fromarray start noise_shape shape walk_steps
     batch_size step_size seed (initial_random seeded entropy2) \<and>
   (0 < batch_size' \<and> batch_size' \<le> walk_steps' \<and> (\<forall>k n. length (fst (draw' k n)) = n) \<longrightarrow>
    map_sum id (\<lambda>walk. walk ! 0)
      (circular_walk draw' (\<lambda>enc b noises. noises) (\<lambda>v. v) encoding shape' walk_steps'
         batch_size' g) =
    Inr (fst (draw' (kernels g (None, Float64)) shape'))) \<and>
   kernels (initial_random seeded' entropy) (None, Float64) = entropy Float64"
proof (intro conjI impI)
  show "script_random_walk draw generate_image fromarray start noise_shape shape walk_steps
     batch_size step_size seed (initial_random seeded entropy1) =
   script_random_walk draw generate_image fromarray start noise_shape shape walk_steps
     batch_size step_size seed (initial_random seeded entropy2)"
    by (rule script_random_walk_entropy)
next
  assume "0 < batch_size' \<and> batch_size' \<le> walk_steps' \<and> (\<forall>k n. length (fst (draw' k n)) = n)"
  then have pos: "0 < batch_size'" and le: "batch_size' \<le> walk_steps'"
    and wf: "\<forall>k n. length (fst (draw' k n)) = n"
    by simp_all
  show "map_sum id (\<lambda>walk. walk ! 0)
      (circular_walk draw' (\<lambda>enc b noises. noises) (\<lambda>v. v) encoding shape' walk_steps'
         batch_size' g) =
    Inr (fst (draw' (kernels g (None, Float64)) shape'))"
    by (rule circular_walk_first [OF pos le wf])
next
  show "kernels (initial_random seeded' entropy) (None, Float64) = entropy Float64"
    by (simp add: initial_random_def)
qed

theorem walks_deterministic_witness:
  "(0 < (2::nat) \<and> (2::nat) \<le> 4 \<and>
    (\<forall>k n. length (fst ((\<lambda>k n. (replicate n (real k), k + n)) (k::nat) n)) = n)) \<and>
   script_random_walk (\<lambda>k n. (replicate n (real k + 1), k + n)) (\<lambda>e b z. e) (\<lambda>v. v)
     (NdArray [0]) 3 1 4 2 1 12345 (initial_random (\<lambda>s dt. 0) (\<lambda>dt. 1)) =
   script_random_walk (\<lambda>k n. (replicate n (real k + 1), k + n)) (\<lambda>e b z. e) (\<lambda>v. v)
     (NdArray [0]) 3 1 4 2 1 12345 (initial_random (\<lambda>s dt. 0) (\<lambda>dt. 2)) \<and>
   map_sum id (\<lambda>walk. walk ! 0)
     (circular_walk (\<lambda>k n. (replicate n (real k), k + n)) (\<lambda>enc b noises. noises) (\<lambda>v. v)
        [] 1 4 2 (initial_random (\<lambda>s dt. 0) (\<lambda>dt. 1))) =
   Inr (fst ((\<lambda>k n. (replicate n (real k), k + n))
          (kernels (initial_random (\<lambda>s dt. 0) (\<lambda>dt. 1)) (None, Float64)) 1)) \<and>
   kernels (initial_random (\<lambda>s dt. 0) (\<lambda>dt. 1)) (None, Float64) = (\<lambda>dt. 1) Float64"
proof -
  have hyps: "0 < (2::nat) \<and> (2::nat) \<le> 4 \<and>
    (\<forall>k n. length (fst ((\<lambda>k n. (replicate n (real k), k + n)) (k::nat) n)) = n)"
    by simp
  note walks = walks_deterministic
  show ?thesis
    by (rule conjI [OF hyps
          conjI [OF walks [THEN conjunct1]
          conjI [OF mp [OF walks [THEN conjunct2, THEN conjunct1] hyps]
                    walks [THEN conjunct2, THEN conjunct2]]]])
qed

text \<open>
  C8. With the identity generator the random walk loop yields the walk of the
  specification: the first vector is the start, and each next vector is the previous
  one plus the next fresh delta. Every appended element is a value of its own:
  \<^verbatim>\<open>encoding += random_deltas\<close> leaves every object of the store as it was, so the
  update of the position after an append does not reach what the batch holds.
\<close>

theorem random_walk_vectors:
  assumes "0 < batch_size"
  shows "random_walk draw (\<lambda>e b z. e) (\<lambda>v. v) start shape walk_steps batch_size step_size
           seed noise g =
         Inr (spec_random_walk (entries start)
                (fst (fresh_deltas draw shape step_size (kernels g (Some seed, Float32))
                   (walk_steps div batch_size * batch_size)))) \<and>
         (0 < walk_steps div batch_size * batch_size \<longrightarrow>
          map_sum id (\<lambda>walk. walk ! 0)
            (random_walk draw (\<lambda>e b z. e) (\<lambda>v. v) start shape walk_steps batch_size
               step_size seed noise g) = Inr (entries start)) \<and>
         (Suc i < walk_steps div batch_size * batch_size \<longrightarrow>
          map_sum id (\<lambda>walk. walk ! Suc i)
            (random_walk draw (\<lambda>e b z. e) (\<lambda>v. v) start shape walk_steps batch_size
               step_size seed noise g) =
          map_sum id (\<lambda>walk. tensor_add (walk ! i)
              (fst (fresh_deltas draw shape step_size (kernels g (Some seed, Float32))
                 (walk_steps div batch_size * batch_size)) ! i))
            (random_walk draw (\<lambda>e b z. e) (\<lambda>v. v) start shape walk_steps batch_size
               step_size seed noise g)) \<and>
         (a < length h \<longrightarrow> fst (iadd h r delta) ! a = h ! a)"
proof -
  let ?n = "walk_steps div batch_size * batch_size"
  let ?ds = "fst (fresh_deltas draw shape step_size (kernels g (Some seed, Float32)) ?n)"
  have len: "length ?ds = ?n"
    by (rule fresh_deltas_length)
  have run: "random_walk draw (\<lambda>e b z. e) (\<lambda>v. v) start shape walk_steps batch_size
      step_size seed noise g = Inr (spec_random_walk (entries start) ?ds)"
    by (rule random_walk_spec [OF assms])
  have first: "spec_random_walk (entries start) ?ds ! 0 = entries start" if "0 < ?n"
  proof -
    have some: "0 < length ?ds"
      using that by (simp only: len)
    show ?thesis
      using spec_random_walk_nth [OF some, of "entries start"] by simp
  qed
  have next_one: "spec_random_walk (entries start) ?ds ! Suc i =
      tensor_add (spec_random_walk (entries start) ?ds ! i) (?ds ! i)" if "Suc i < ?n"
  proof -
    have "Suc i < length ?ds"
      using that by (simp only: len)
    then show ?thesis
      by (rule spec_random_walk_step)
  qed
  have kept: "fst (iadd h r delta) ! a = h ! a" if "a < length h"
    by (rule iadd_keeps_objects [OF that])
  show ?thesis
    using first next_one kept by (simp add: run)
qed

theorem random_walk_vectors_witness:
  "0 < (2::nat) \<and> 0 < 4 div 2 * (2::nat) \<and> Suc 2 < 4 div 2 * (2::nat) \<and>
   0 < length [NdArray [0]] \<and>
   random_walk (\<lambda>k n. (replicate n (real k + 1), k + n)) (\<lambda>e b z. e) (\<lambda>v. v)
     (NdArray [0]) 1 4 2 1 12345 [] (initial_random (\<lambda>s dt. 0) (\<lambda>dt. 0)) =
     Inr (spec_random_walk (entries (NdArray [0]))
            (fst (fresh_deltas (\<lambda>k n. (replicate n (real k + 1), k + n)) 1 1
               (kernels (initial_random (\<lambda>s dt. 0) (\<lambda>dt. 0)) (Some 12345, Float32))
               (4 div 2 * 2)))) \<and>
   map_sum id (\<lambda>walk. walk ! 0)
     (random_walk (\<lambda>k n. (replicate n (real k + 1), k + n)) (\<lambda>e b z. e) (\<lambda>v. v)
        (NdArray [0]) 1 4 2 1 12345 [] (initial_random (\<lambda>s dt. 0) (\<lambda>dt. 0))) =
     Inr (entries (NdArray [0])) \<and>
   map_sum id (\<lambda>walk. walk ! Suc 2)
     (random_walk (\<lambda>k n. (replicate n (real k + 1), k + n)) (\<lambda>e b z. e) (\<lambda>v. v)
        (NdArray [0]) 1 4 2 1 12345 [] (initial_random (\<lambda>s dt. 0) (\<lambda>dt. 0))) =
     map_sum id (\<lambda>walk. tensor_add (walk ! 2)
         (fst (fresh_deltas (\<lambda>k n. (replicate n (real k + 1), k + n)) 1 1
            (kernels (initial_random (\<lambda>s dt. 0) (\<lambda>dt. 0)) (Some 12345, Float32))
            (4 div 2 * 2)) ! 2))
       (random_walk (\<lambda>k n. (replicate n (real k + 1), k + n)) (\<lambda>e b z. e) (\<lambda>v. v)
          (NdArray [0]) 1 4 2 1 12345 [] (initial_random (\<lambda>s dt. 0) (\<lambda>dt. 0))) \<and>
   fst (iadd [NdArray [0]] 0 [1]) ! 0 = [NdArray [0]] ! 0"
proof -
  have pos: "0 < (2::nat)" and some: "0 < 4 div 2 * (2::nat)"
    and i: "Suc 2 < 4 div 2 * (2::nat)" and a: "0 < length [NdArray [0]]"
    by simp_all
  note walk = random_walk_vectors [OF pos]
  show ?thesis
    by (rule conjI [OF pos conjI [OF some conjI [OF i conjI [OF a
          conjI [OF walk [THEN conjunct1]
          conjI [OF mp [OF walk [THEN conjunct2, THEN conjunct1] some]
          conjI [OF mp [OF walk [THEN conjunct2, THEN conjunct2, THEN conjunct1] i]
                    mp [OF walk [THEN conjunct2, THEN conjunct2, THEN conjunct2] a]]]]]]]])
qed

end
